theory Spec2Isabelle
  imports Complex_Main
begin

section \<open>Numbers\<close>

text \<open>
  The program is TypeScript.  A \<open>number\<close> is modelled as a \<open>real\<close> with exact
  arithmetic: rounding, overflow and NaN of the IEEE doubles are outside the model, except
  for the elevation pass, which is also read with the rounded addition of doubles.
  Quantities the interchange format declares as integers (a piece's \<open>length\<close>, a placed
  sprite's \<open>segmentIndex\<close>) are \<open>int\<close>; a segment's \<open>index\<close>, always an array
  length, is \<open>nat\<close>.  Where the source can divide by zero the model returns \<open>None\<close>.
  Two functions are modelled a second time on the values the language really has:
  \<open>update_js\<close> is the tick with infinities and NaN, \<open>buildFromData_js\<close> the build from
  data whose sprite indices are any number or \<open>null\<close>.
\<close>

definition js_round :: "real \<Rightarrow> real" where
  \<comment> \<open>\<open>Math.round\<close>: the nearest integer, halves towards plus infinity\<close>
  "js_round v = of_int \<lfloor>v + 1 / 2\<rfloor>"

definition js_sign :: "real \<Rightarrow> real" where
  \<comment> \<open>\<open>Math.sign\<close>\<close>
  "js_sign v = (if v > 0 then 1 else if v < 0 then - 1 else 0)"

definition js_rem_int :: "int \<Rightarrow> int \<Rightarrow> int" where
  \<comment> \<open>the \<open>%\<close> operator on integral operands, divisor non-zero: the sign of the dividend\<close>
  "js_rem_int a b = (if a < 0 then - ((- a) mod \<bar>b\<bar>) else a mod \<bar>b\<bar>)"

definition js_rem :: "real \<Rightarrow> real \<Rightarrow> real" where
  \<comment> \<open>the \<open>%\<close> operator, divisor non-zero: \<open>a - b * trunc (a / b)\<close>\<close>
  "js_rem a b =
     (let q = a / b;
          t = (if q < 0 then \<lceil>q\<rceil> else \<lfloor>q\<rfloor>)
      in a - b * of_int t)"

section \<open>Data model (types/game.ts, data/TrackData.ts)\<close>

text \<open>
  Field names of the source that clash with each other or with HOL constants carry a
  prefix: \<open>vx, vy, vz\<close> for \<open>x, y, z\<close> of a world or camera point, \<open>sx, sy, sw\<close> for
  \<open>x, y, w\<close> of a screen point.
\<close>

record WorldCoord =
  vx :: real
  vy :: real
  vz :: real

record ScreenPos =
  sx :: real
  sy :: real
  sw :: real

record ScreenCoord =
  world :: WorldCoord
  camera :: WorldCoord
  screen :: ScreenPos
  scale :: real

record SegmentColor =
  road :: string
  grass :: string
  rumble :: string
  lane :: string

type_synonym SpriteType = string

record Sprite =
  sprite_type :: SpriteType
  sprite_offset :: real

record Segment =
  index :: nat
  p1 :: ScreenCoord
  p2 :: ScreenCoord
  curve :: real
  hill :: real
  color :: SegmentColor
  sprites :: "Sprite list"

datatype TrackPieceType = Straight | Curve | Hill

record TrackPiece =
  piece_id :: string
  piece_type :: TrackPieceType
  piece_length :: int
  piece_value :: real

record PlacedSprite =
  placed_id :: string
  segmentIndex :: int
  placed_type :: SpriteType
  placed_offset :: real

record TrackData =
  pieces :: "TrackPiece list"
  placed :: "PlacedSprite list"

text \<open>
  The \<open>Track\<close> class.  Its fields \<open>segmentLength\<close> and \<open>rumbleLength\<close> are initialised
  from \<open>ROAD\<close> and never assigned again, so they are constants here.
\<close>

record Track =
  segments :: "Segment list"
  trackLength :: real
  currentPieces :: "TrackPiece list"

definition segmentLength :: real where
  "segmentLength = 200"

definition rumbleLength :: nat where
  "rumbleLength = 3"

definition COLORS_LIGHT :: SegmentColor where
  "COLORS_LIGHT = \<lparr>road = ''#6b6b6b'', grass = ''#10aa10'', rumble = ''#ff0000'', lane = ''#cccccc''\<rparr>"

definition COLORS_DARK :: SegmentColor where
  "COLORS_DARK = \<lparr>road = ''#696969'', grass = ''#009a00'', rumble = ''#ffffff'', lane = ''#696969''\<rparr>"

section \<open>Track builder (core/Track.ts)\<close>

definition createScreenCoord :: "nat \<Rightarrow> ScreenCoord" where
  "createScreenCoord i =
     \<lparr>world = \<lparr>vx = 0, vy = 0, vz = real i * segmentLength\<rparr>,
      camera = \<lparr>vx = 0, vy = 0, vz = 0\<rparr>,
      screen = \<lparr>sx = 0, sy = 0, sw = 0\<rparr>,
      scale = 0\<rparr>"

definition addSegment :: "Segment list \<Rightarrow> real \<Rightarrow> real \<Rightarrow> Segment list" where
  "addSegment segs c h =
     (let n = length segs;
          col = (if (n div rumbleLength) mod 2 = 0 then COLORS_LIGHT else COLORS_DARK)
      in segs @ [\<lparr>index = n, p1 = createScreenCoord n, p2 = createScreenCoord (n + 1),
                  curve = c, hill = h, color = col, sprites = []\<rparr>])"

text \<open>
  A loop \<open>for (let i = 0; i < count; i++)\<close> over an integer \<open>count\<close> runs
  \<open>nat count\<close> times (not at all when \<open>count\<close> is negative); its body sees \<open>i\<close>.
\<close>

definition for_count :: "int \<Rightarrow> (Segment list \<Rightarrow> nat \<Rightarrow> Segment list) \<Rightarrow> Segment list \<Rightarrow> Segment list" where
  "for_count cnt body segs = foldl body segs [0..<nat cnt]"

definition addStraight :: "Segment list \<Rightarrow> int \<Rightarrow> Segment list" where
  "addStraight segs cnt = for_count cnt (\<lambda>s i. addSegment s 0 0) segs"

definition enterCount :: "int \<Rightarrow> int" where
  "enterCount cnt = cnt div 4"

definition holdCount :: "int \<Rightarrow> int" where
  "holdCount cnt = cnt div 2"

definition exitCount :: "int \<Rightarrow> int" where
  "exitCount cnt = cnt - enterCount cnt - holdCount cnt"

definition addCurve :: "Segment list \<Rightarrow> int \<Rightarrow> real \<Rightarrow> Segment list" where
  "addCurve segs cnt c =
     (let s1 = for_count (enterCount cnt)
                 (\<lambda>s i. addSegment s ((c * real i) / of_int (enterCount cnt)) 0) segs;
          s2 = for_count (holdCount cnt) (\<lambda>s i. addSegment s c 0) s1
      in for_count (exitCount cnt)
           (\<lambda>s i. addSegment s (c * (1 - real i / of_int (exitCount cnt))) 0) s2)"

definition addHill :: "Segment list \<Rightarrow> int \<Rightarrow> real \<Rightarrow> Segment list" where
  "addHill segs cnt h =
     (let s1 = for_count (enterCount cnt)
                 (\<lambda>s i. addSegment s 0 ((h * real i) / of_int (enterCount cnt))) segs;
          s2 = for_count (holdCount cnt) (\<lambda>s i. addSegment s 0 h) s1
      in for_count (exitCount cnt)
           (\<lambda>s i. addSegment s 0 (h * (1 - real i / of_int (exitCount cnt)))) s2)"

definition addCurveWithHill :: "Segment list \<Rightarrow> int \<Rightarrow> real \<Rightarrow> real \<Rightarrow> Segment list" where
  "addCurveWithHill segs cnt c h =
     (let s1 = for_count (enterCount cnt)
                 (\<lambda>s i. let t = real i / of_int (enterCount cnt) in addSegment s (c * t) (h * t)) segs;
          s2 = for_count (holdCount cnt) (\<lambda>s i. addSegment s c h) s1
      in for_count (exitCount cnt)
           (\<lambda>s i. let t = 1 - real i / of_int (exitCount cnt) in addSegment s (c * t) (h * t)) s2)"

text \<open>
  \<open>calculateYPositions\<close>.  The running total is advanced by \<open>y += segment.hill\<close>; the
  addition is a parameter, so that the pass can be read with exact addition, as everywhere
  else in this theory, and with the rounded addition of double-precision numbers.
\<close>

fun calcY :: "(real \<Rightarrow> real \<Rightarrow> real) \<Rightarrow> real \<Rightarrow> Segment list \<Rightarrow> Segment list" where
  "calcY add y [] = []"
| "calcY add y (s # ss) =
     s\<lparr>p1 := (p1 s)\<lparr>world := (world (p1 s))\<lparr>vy := y\<rparr>\<rparr>,
       p2 := (p2 s)\<lparr>world := (world (p2 s))\<lparr>vy := add y (hill s)\<rparr>\<rparr>\<rparr>
     # calcY add (add y (hill s)) ss"

definition calculateYPositions :: "Segment list \<Rightarrow> Segment list" where
  "calculateYPositions segs = calcY (+) 0 segs"

definition addPiece :: "Segment list \<Rightarrow> TrackPiece \<Rightarrow> Segment list" where
  "addPiece segs p =
     (case piece_type p of
        Straight \<Rightarrow> addStraight segs (piece_length p)
      | Curve \<Rightarrow> addCurve segs (piece_length p) (piece_value p)
      | Hill \<Rightarrow> addHill segs (piece_length p) (piece_value p))"

definition pushSprite :: "Segment list \<Rightarrow> int \<Rightarrow> Sprite \<Rightarrow> Segment list" where
  \<comment> \<open>\<open>this.segments[i].sprites.push(sp)\<close> for an index known to be in range\<close>
  "pushSprite segs i sp = segs[nat i := (segs ! nat i)\<lparr>sprites := sprites (segs ! nat i) @ [sp]\<rparr>]"

definition spriteOf :: "PlacedSprite \<Rightarrow> Sprite" where
  \<comment> \<open>the object literal \<open>{ type: sprite.type, offset: sprite.offset }\<close>\<close>
  "spriteOf ps = \<lparr>sprite_type = placed_type ps, sprite_offset = placed_offset ps\<rparr>"

definition placeSprite :: "Segment list \<Rightarrow> PlacedSprite \<Rightarrow> Segment list" where
  "placeSprite segs ps =
     (if segmentIndex ps \<ge> 0 \<and> segmentIndex ps < int (length segs)
      then pushSprite segs (segmentIndex ps) (spriteOf ps)
      else segs)"

definition buildFromData :: "TrackData \<Rightarrow> Track" where
  "buildFromData d =
     (let s0 = foldl addPiece [] (pieces d);
          s1 = (if length s0 = 0 then addStraight s0 100 else s0);
          tlen = real (length s1) * segmentLength;
          s2 = calculateYPositions s1
      in \<lparr>segments = foldl placeSprite s2 (placed d),
           trackLength = tlen,
           currentPieces = pieces d\<rparr>)"

definition getSegment :: "Track \<Rightarrow> real \<Rightarrow> Segment option" where
  \<comment> \<open>\<open>None\<close> is JavaScript's \<open>undefined\<close>: an empty store (index NaN) or a read out of range\<close>
  "getSegment t z =
     (let n = int (length (segments t))
      in if n = 0 then None
         else let i = js_rem_int \<lfloor>z / segmentLength\<rfloor> n;
                  j = (if i < 0 then i + n else i)
              in if 0 \<le> j \<and> j < n then Some (segments t ! nat j) else None)"

subsection \<open>Export\<close>

text \<open>
  \<open>generateId\<close> is \<open>Math.random().toString(36).substring(2, 9)\<close>.  The random source and
  the base-36 printing of a number are taken from an environment: \<open>random env k\<close> is the
  \<open>k\<close>-th value \<open>Math.random()\<close> returns, and every function that draws returns the
  number of draws made so far.
\<close>

record Env =
  random :: "nat \<Rightarrow> real"
  toString36 :: "real \<Rightarrow> string"

definition generateId :: "Env \<Rightarrow> nat \<Rightarrow> string \<times> nat" where
  "generateId env k = (take 7 (drop 2 (toString36 env (random env k))), Suc k)"

fun exportSegment :: "Env \<Rightarrow> nat \<Rightarrow> nat \<Rightarrow> Sprite list \<Rightarrow> PlacedSprite list \<times> nat" where
  "exportSegment env k i [] = ([], k)"
| "exportSegment env k i (sp # sps) =
     (let (ident, k1) = generateId env k;
          (rest, k2) = exportSegment env k1 i sps
      in (\<lparr>placed_id = ident, segmentIndex = int i,
            placed_type = sprite_type sp, placed_offset = sprite_offset sp\<rparr> # rest, k2))"

fun exportFrom :: "Env \<Rightarrow> nat \<Rightarrow> nat \<Rightarrow> Segment list \<Rightarrow> PlacedSprite list \<times> nat" where
  "exportFrom env k i [] = ([], k)"
| "exportFrom env k i (s # ss) =
     (let (a, k1) = exportSegment env k i (sprites s);
          (b, k2) = exportFrom env k1 (Suc i) ss
      in (a @ b, k2))"

definition getTrackData :: "Env \<Rightarrow> nat \<Rightarrow> Track \<Rightarrow> TrackData \<times> nat" where
  "getTrackData env k t =
     (let (sps, k') = exportFrom env k 0 (segments t)
      in (\<lparr>pieces = currentPieces t, placed = sps\<rparr>, k'))"

subsection \<open>Procedural generation\<close>

definition TREE_SPRITES :: "SpriteType list" where
  "TREE_SPRITES = [''palm_tree'', ''tree1'', ''tree2'', ''dead_tree1'', ''dead_tree2'']"

definition VEGETATION_SPRITES :: "SpriteType list" where
  "VEGETATION_SPRITES = [''bush1'', ''bush2'', ''cactus'', ''stump'']"

definition OBJECT_SPRITES :: "SpriteType list" where
  "OBJECT_SPRITES = [''boulder1'', ''boulder2'', ''boulder3'', ''column'']"

definition BILLBOARD_SPRITES :: "SpriteType list" where
  "BILLBOARD_SPRITES = [''billboard01'', ''billboard02'', ''billboard03'', ''billboard04'',
     ''billboard05'', ''billboard06'', ''billboard07'', ''billboard08'', ''billboard09'']"

definition startsWith :: "string \<Rightarrow> string \<Rightarrow> bool" where
  "startsWith s pre = (take (length pre) s = pre)"

definition pick :: "SpriteType list \<Rightarrow> real \<Rightarrow> SpriteType" where
  \<comment> \<open>\<open>xs[Math.floor(r * xs.length)]\<close>; a read out of range gives \<open>undefined\<close>, which no
      draw \<open>r\<close> in \<open>[0, 1)\<close> reaches\<close>
  "pick xs r =
     (let i = \<lfloor>r * real (length xs)\<rfloor>
      in if 0 \<le> i \<and> i < int (length xs) then xs ! nat i else ''undefined'')"

definition spritesFor :: "Env \<Rightarrow> nat \<Rightarrow> nat \<Rightarrow> Sprite list \<times> nat" where
  \<comment> \<open>the sprites one iteration of \<open>addSprites\<close> pushes on segment \<open>i\<close>, in order\<close>
  "spritesFor env k i =
     (let rocks = filter (\<lambda>s. startsWith s ''boulder'') OBJECT_SPRITES;
          (a1, k1) = (if i mod 12 = 0
             then ([\<lparr>sprite_type = pick TREE_SPRITES (random env k),
                      sprite_offset = - (1.3 + random env (k + 1) * 0.5)\<rparr>], k + 2)
             else ([], k));
          (a2, k2) = (if i mod 15 = 0
             then ([\<lparr>sprite_type = pick TREE_SPRITES (random env k1),
                      sprite_offset = 1.3 + random env (k1 + 1) * 0.5\<rparr>], k1 + 2)
             else ([], k1));
          (a3, k3) = (if i mod 20 = 0
             then ([\<lparr>sprite_type = pick VEGETATION_SPRITES (random env k2),
                      sprite_offset = - (1.15 + random env (k2 + 1) * 0.2)\<rparr>], k2 + 2)
             else ([], k2));
          (a4, k4) = (if i mod 25 = 0
             then ([\<lparr>sprite_type = pick VEGETATION_SPRITES (random env k3),
                      sprite_offset = 1.15 + random env (k3 + 1) * 0.2\<rparr>], k3 + 2)
             else ([], k3));
          a5 = (if i mod 30 = 0
             then [\<lparr>sprite_type = ''column'', sprite_offset = - 1.1\<rparr>,
                   \<lparr>sprite_type = ''column'', sprite_offset = 1.1\<rparr>]
             else []);
          (a6, k6) = (if i mod 40 = 0 \<and> length rocks > 0
             then ([\<lparr>sprite_type = pick rocks (random env k4),
                      sprite_offset = - (1.5 + random env (k4 + 1) * 0.3)\<rparr>], k4 + 2)
             else ([], k4));
          (a7, k7) = (if i mod 80 = 0 \<and> length BILLBOARD_SPRITES > 0
             then (let ty = pick BILLBOARD_SPRITES (random env k6);
                       side = (if random env (k6 + 1) > 0.5 then 1 else - 1)
                   in ([\<lparr>sprite_type = ty,
                          sprite_offset = side * (1.4 + random env (k6 + 2) * 0.3)\<rparr>], k6 + 3))
             else ([], k6))
      in (a1 @ a2 @ a3 @ a4 @ a5 @ a6 @ a7, k7))"

fun addSpritesFrom :: "Env \<Rightarrow> nat \<Rightarrow> nat \<Rightarrow> Segment list \<Rightarrow> Segment list \<times> nat" where
  "addSpritesFrom env k i [] = ([], k)"
| "addSpritesFrom env k i (s # ss) =
     (let (sps, k1) = spritesFor env k i;
          (rest, k2) = addSpritesFrom env k1 (Suc i) ss
      in (s\<lparr>sprites := sprites s @ sps\<rparr> # rest, k2))"

definition addSprites :: "Env \<Rightarrow> nat \<Rightarrow> Segment list \<Rightarrow> Segment list \<times> nat" where
  "addSprites env k segs = addSpritesFrom env k 0 segs"

text \<open>The state of the generator: the segments, the pieces recorded for export, the draws made.\<close>

type_synonym Gen = "Segment list \<times> TrackPiece list \<times> nat"

definition randomSection :: "Env \<Rightarrow> Gen \<Rightarrow> Gen" where
  "randomSection env g =
     (let (segs, pcs, k) = g;
          sectionType = random env k
      in if sectionType < 0.3 then
           (let len = 30 + \<lfloor>random env (k + 1) * 50\<rfloor>;
                (ident, k') = generateId env (k + 2)
            in (addStraight segs len,
                pcs @ [\<lparr>piece_id = ident, piece_type = Straight, piece_length = len, piece_value = 0\<rparr>],
                k'))
         else if sectionType < 0.6 then
           (let len = 30 + \<lfloor>random env (k + 1) * 50\<rfloor>;
                intensity = random env (k + 2) * 6 - 3;
                (ident, k') = generateId env (k + 3)
            in (addCurve segs len intensity,
                pcs @ [\<lparr>piece_id = ident, piece_type = Curve, piece_length = len, piece_value = intensity\<rparr>],
                k'))
         else if sectionType < 0.85 then
           (let len = 40 + \<lfloor>random env (k + 1) * 80\<rfloor>;
                height = random env (k + 2) * 300 - 150;
                (ident, k') = generateId env (k + 3)
            in (addHill segs len height,
                pcs @ [\<lparr>piece_id = ident, piece_type = Hill, piece_length = len, piece_value = height\<rparr>],
                k'))
         else
           (let len = 40 + \<lfloor>random env (k + 1) * 60\<rfloor>;
                curveIntensity = random env (k + 2) * 4 - 2;
                hillHeight = random env (k + 3) * 200 - 100;
                (id1, k1) = generateId env (k + 4);
                (id2, k2) = generateId env k1
            in (addCurveWithHill segs len curveIntensity hillHeight,
                pcs @ [\<lparr>piece_id = id1, piece_type = Curve, piece_length = len div 2,
                          piece_value = curveIntensity\<rparr>,
                       \<lparr>piece_id = id2, piece_type = Hill, piece_length = len div 2,
                          piece_value = hillHeight\<rparr>],
                k2)))"

definition buildRandomTrack :: "Env \<Rightarrow> nat \<Rightarrow> Track \<times> nat" where
  "buildRandomTrack env k =
     (let numSections = 12 + \<lfloor>random env k * (20 - 12)\<rfloor>;
          startLength = 30 + \<lfloor>random env (k + 1) * 30\<rfloor>;
          (id0, k0) = generateId env (k + 2);
          g0 = (addStraight [] startLength,
                [\<lparr>piece_id = id0, piece_type = Straight, piece_length = startLength, piece_value = 0\<rparr>],
                k0);
          (segs1, pcs1, k1) = (randomSection env ^^ nat numSections) g0;
          endLength = 40 + \<lfloor>random env k1 * 40\<rfloor>;
          (idE, k2) = generateId env (k1 + 1);
          pcs2 = pcs1 @ [\<lparr>piece_id = idE, piece_type = Straight, piece_length = endLength, piece_value = 0\<rparr>];
          segs2 = addStraight segs1 endLength;
          tlen = real (length segs2) * segmentLength;
          segs3 = calculateYPositions segs2;
          (segs4, k3) = addSprites env k2 segs3
      in (\<lparr>segments = segs4, trackLength = tlen, currentPieces = pcs2\<rparr>, k3))"

section \<open>Projection and the road pass (core/WebGLRenderer.ts)\<close>

record Renderer =
  width :: real
  height :: real
  roadWidth :: real
  cameraHeight :: real
  cameraDepth :: real
  drawDistance :: nat

definition project :: "Renderer \<Rightarrow> ScreenCoord \<Rightarrow> real \<Rightarrow> real \<Rightarrow> real \<Rightarrow> ScreenCoord" where
  \<comment> \<open>the division is reached only with \<open>camera.z > 0\<close>\<close>
  "project r p cameraX cameraY cameraZ =
     (let cam = \<lparr>vx = vx (world p) - cameraX, vy = vy (world p) - cameraY,
                 vz = vz (world p) - cameraZ\<rparr>
      in if vz cam \<le> 0
         then p\<lparr>camera := cam, scale := 0, screen := \<lparr>sx = 0, sy = height r, sw = 0\<rparr>\<rparr>
         else let sc = cameraDepth r / vz cam
              in p\<lparr>camera := cam, scale := sc,
                   screen := \<lparr>sx = js_round (width r / 2 + (sc * vx cam * width r) / 2),
                              sy = js_round (height r / 2 - (sc * vy cam * height r) / 2),
                              sw = js_round ((sc * roadWidth r * width r) / 2)\<rparr>\<rparr>)"

definition defaultRenderer :: Renderer where
  \<comment> \<open>the field initialisers of the class, from \<open>RENDER\<close> and \<open>CAMERA\<close>\<close>
  "defaultRenderer =
     \<lparr>width = 640, height = 480, roadWidth = 2000, cameraHeight = 1000,
      cameraDepth = 0.84, drawDistance = 350\<rparr>"

text \<open>
  The loop of \<open>render\<close> that projects the segments and moves the occlusion horizon
  \<open>maxy\<close>.  Each iteration stores the segment and the current \<open>maxy\<close> (as \<open>clip\<close>) in
  the next slot of \<open>segmentDataPool\<close>; \<open>pool\<close> is the filled part of it, a segment
  being named by its position in the store (the pool has \<open>drawDistance\<close> slots from the
  constructor).  Building the vertices of a drawn segment does not touch \<open>maxy\<close> and is
  left out.  \<open>roadPassN\<close> is the state after the first
  \<open>n\<close> iterations, \<open>roadPass\<close> the state after all \<open>drawDistance\<close> of them.
\<close>

record RoadPass =
  pass_segments :: "Segment list"
  maxy :: real
  run_x :: real
  run_dx :: real
  pool :: "(nat \<times> real) list"

definition roadStep ::
  "Renderer \<Rightarrow> Track \<Rightarrow> real \<Rightarrow> real \<Rightarrow> real \<Rightarrow> nat \<Rightarrow> RoadPass \<Rightarrow> nat \<Rightarrow> RoadPass" where
  "roadStep r t position playerX camPlayerY baseIndex st n =
     (let segmentIdx = (baseIndex + n) mod length (pass_segments st);
          seg = pass_segments st ! segmentIdx;
          looped = segmentIdx < baseIndex;
          camZ = position - (if looped then trackLength t else 0);
          camY = camPlayerY + cameraHeight r;
          q1 = project r (p1 seg) (playerX * roadWidth r - run_x st) camY camZ;
          q2 = project r (p2 seg) (playerX * roadWidth r - run_x st - run_dx st) camY camZ;
          seg' = seg\<lparr>p1 := q1, p2 := q2\<rparr>;
          st' = st\<lparr>pass_segments := (pass_segments st)[segmentIdx := seg'],
                   run_x := run_x st + run_dx st,
                   run_dx := run_dx st + curve seg,
                   pool := pool st @ [(segmentIdx, maxy st)]\<rparr>
      in if vz (camera q1) \<le> cameraDepth r then st'
         else if sy (screen q2) \<ge> sy (screen q1) then st'
         else if sy (screen q2) \<ge> maxy st then st'
         else st'\<lparr>maxy := sy (screen q1)\<rparr>)"

definition roadPassN ::
  "Renderer \<Rightarrow> Track \<Rightarrow> real \<Rightarrow> real \<Rightarrow> real option \<Rightarrow> nat \<Rightarrow> RoadPass option" where
  \<comment> \<open>\<open>None\<close>: the store is empty, \<open>getSegment\<close> gives \<open>undefined\<close> and reading it throws\<close>
  "roadPassN r t position playerX playerY n =
     (case getSegment t position of
        None \<Rightarrow> None
      | Some baseSegment \<Rightarrow>
          (let basePercent = js_rem position segmentLength / segmentLength;
               camPlayerY = (case playerY of
                   Some y \<Rightarrow> y
                 | None \<Rightarrow> vy (world (p1 baseSegment))
                     + (vy (world (p2 baseSegment)) - vy (world (p1 baseSegment))) * basePercent);
               st0 = \<lparr>pass_segments = segments t, maxy = height r, run_x = 0,
                      run_dx = - (curve baseSegment * basePercent), pool = []\<rparr>
           in Some (foldl (roadStep r t position playerX camPlayerY (index baseSegment))
                      st0 [0..<n])))"

definition roadPass :: "Renderer \<Rightarrow> Track \<Rightarrow> real \<Rightarrow> real \<Rightarrow> real option \<Rightarrow> RoadPass option" where
  "roadPass r t position playerX playerY = roadPassN r t position playerX playerY (drawDistance r)"

definition maxy_values :: "RoadPass \<Rightarrow> real list" where
  \<comment> \<open>the values \<open>maxy\<close> has taken: at the start of each iteration made, then the current one\<close>
  "maxy_values st = map snd (pool st) @ [maxy st]"

definition maxy_sequence :: "Renderer \<Rightarrow> Track \<Rightarrow> real \<Rightarrow> real \<Rightarrow> real option \<Rightarrow> real list option" where
  "maxy_sequence r t position playerX playerY =
     map_option maxy_values (roadPass r t position playerX playerY)"

section \<open>Vehicle integrator (core/Game.ts)\<close>

text \<open>The player's field \<open>x\<close> is \<open>px\<close> here.\<close>

record Player =
  px :: real
  speed :: real
  maxSpeed :: real
  accel :: real
  decel :: real
  offRoadDecel :: real
  offRoadMaxSpeed :: real

record InputState =
  left :: bool
  right :: bool
  up :: bool
  down :: bool

record Game =
  track :: Track
  renderer :: Renderer
  position :: real
  player :: Player
  playerY :: real
  centrifugalForce :: real
  steeringRate :: real
  steeringSpeedScale :: real

definition js_div :: "real \<Rightarrow> real \<Rightarrow> real option" where
  \<comment> \<open>a division whose divisor may be zero: the source then computes NaN or an infinity\<close>
  "js_div a b = (if b = 0 then None else Some (a / b))"

definition steer :: "Game \<Rightarrow> InputState \<Rightarrow> real \<Rightarrow> real \<Rightarrow> real" where
  \<comment> \<open>the player's \<open>x\<close> after the steering step, \<open>sp\<close> being \<open>speedPercent\<close>\<close>
  "steer g inp dt sp =
     (let steerRate = dt * steeringRate g * sp * (1 - sp * steeringSpeedScale g);
          x0 = px (player g)
      in if speed (player g) > 0
         then (let xl = (if left inp then x0 - steerRate else x0)
               in if right inp then xl + steerRate else xl)
         else x0)"

definition offRoadAmount :: "real \<Rightarrow> real" where
  "offRoadAmount x = max 0 (\<bar>x\<bar> - 1.0)"

definition isOffRoad :: "real \<Rightarrow> bool" where
  "isOffRoad x = (offRoadAmount x > 0)"

definition offRoadFactor :: "real \<Rightarrow> real" where
  "offRoadFactor x = min (offRoadAmount x) 1.0"

definition effectiveMaxSpeed :: "Player \<Rightarrow> real \<Rightarrow> real" where
  \<comment> \<open>the local \<open>maxSpeed\<close> of \<open>update\<close>, for the player's \<open>x\<close> after steering\<close>
  "effectiveMaxSpeed p x =
     (if isOffRoad x
      then maxSpeed p - (maxSpeed p - offRoadMaxSpeed p) * offRoadFactor x
      else maxSpeed p)"

definition newSpeed :: "Player \<Rightarrow> InputState \<Rightarrow> real \<Rightarrow> real \<Rightarrow> real \<Rightarrow> real" where
  \<comment> \<open>the speed after throttle, bleed, off-road drag and the final clamp\<close>
  "newSpeed p inp dt sp x =
     (let v1 = (if up inp
                then speed p + accel p * dt * 100 * (if isOffRoad x then 1 - offRoadFactor x * 0.7 else 1)
                else if down inp then speed p - accel p * dt * 100 * 2
                else speed p - decel p * dt * 100);
          v2 = (if left inp \<or> right inp then v1 - decel p * dt * 100 * sp else v1);
          v3 = (if isOffRoad x \<and> v2 > effectiveMaxSpeed p x
                then v2 - offRoadDecel p * dt * 100 * offRoadFactor x else v2)
      in max 0 (min v3 (effectiveMaxSpeed p x)))"

partial_function (option) wrapAbove :: "real \<Rightarrow> real \<Rightarrow> real option" where
  "wrapAbove len pos = (if pos \<ge> len then wrapAbove len (pos - len) else Some pos)"

partial_function (option) wrapBelow :: "real \<Rightarrow> real \<Rightarrow> real option" where
  "wrapBelow len pos = (if pos < 0 then wrapBelow len (pos + len) else Some pos)"

definition update :: "Game \<Rightarrow> InputState \<Rightarrow> real \<Rightarrow> Game option" where
  \<comment> \<open>\<open>None\<close>: a division by zero, a read of \<open>undefined\<close>, or a wrap loop that never ends\<close>
  "update g inp dt =
     (case js_div (speed (player g)) (maxSpeed (player g)) of
        None \<Rightarrow> None
      | Some speedPercent \<Rightarrow>
     (let x1 = steer g inp dt speedPercent;
          v = newSpeed (player g) inp dt speedPercent x1
      in case getSegment (track g) (position g) of
        None \<Rightarrow> None
      | Some segment \<Rightarrow>
     (case getSegment (track g) (position g + segmentLength) of
        None \<Rightarrow> None
      | Some nextSegment \<Rightarrow>
     (let segmentPercent = js_rem (position g) segmentLength / segmentLength;
          rawCurveValue = curve segment + (curve nextSegment - curve segment) * segmentPercent;
          curveValue = js_sign rawCurveValue * min \<bar>rawCurveValue\<bar> 5;
          centrifugal = curveValue * speedPercent * speedPercent * dt * centrifugalForce g;
          x2 = x1 - centrifugal;
          x3 = max (- 2) (min 2 x2);
          pos1 = position g + (v * dt * segmentLength) / 10;
          playerZ = cameraHeight (renderer g) * cameraDepth (renderer g)
      in case getSegment (track g) (pos1 + playerZ) of
        None \<Rightarrow> None
      | Some playerSegment \<Rightarrow>
     (let playerPercent = js_rem (pos1 + playerZ) segmentLength / segmentLength;
          roadY = vy (world (p1 playerSegment))
                  + (vy (world (p2 playerSegment)) - vy (world (p1 playerSegment))) * playerPercent
      in case wrapAbove (trackLength (track g)) pos1 of
        None \<Rightarrow> None
      | Some pos2 \<Rightarrow>
     (case wrapBelow (trackLength (track g)) pos2 of
        None \<Rightarrow> None
      | Some pos3 \<Rightarrow>
          Some (g\<lparr>player := (player g)\<lparr>px := x3, speed := v\<rparr>,
                  position := pos3, playerY := roadY\<rparr>)))))))"

section \<open>Numbers that are not real\<close>

text \<open>
  A JavaScript \<open>number\<close> is also one of the two infinities or NaN.  These arise in the
  program from a division by zero and then spread through the arithmetic; \<open>jsnum\<close> adds
  them to the reals, with the operations of the language on them (rounding and the sign
  of zero left aside, a zero divisor being taken as positive).  Every comparison with NaN
  is false; \<open>Math.max\<close> and \<open>Math.min\<close> give NaN as soon as an argument is NaN.
\<close>

datatype jsnum = Fin real | PInf | NInf | NaN








fun jlt :: "jsnum \<Rightarrow> jsnum \<Rightarrow> bool" where
  "jlt NaN b = False"
| "jlt a NaN = False"
| "jlt (Fin a) (Fin b) = (a < b)"
| "jlt a NInf = False"
| "jlt PInf b = False"
| "jlt NInf b = True"
| "jlt a PInf = True"


fun jge :: "jsnum \<Rightarrow> jsnum \<Rightarrow> bool" where
  "jge NaN b = False"
| "jge a NaN = False"
| "jge a b = (\<not> jlt a b)"



subsection \<open>The tick, with infinities and NaN\<close>










section \<open>Building from data as it is read\<close>

text \<open>
  \<open>TrackData\<close> comes from \<open>JSON.parse\<close> or from the editor and is not validated.  A
  sprite's \<open>segmentIndex\<close> is then any number, or \<open>null\<close> (what \<open>JSON.stringify\<close> writes
  for NaN).  \<open>buildFromData_js\<close> is \<open>buildFromData\<close> on such data, with the failure of
  the source: the guard compares numerically (\<open>null\<close> counts as 0), and
  \<open>this.segments[segmentIndex]\<close> is \<open>undefined\<close> unless the index is an integer position
  of the array, so that pushing on its \<open>sprites\<close> throws a TypeError and the build is
  abandoned.  \<open>buildFromData\<close> above is the case of integer indices.
\<close>

datatype IndexValue = NumberValue jsnum | NullValue

record RawSprite =
  raw_id :: string
  raw_segmentIndex :: IndexValue
  raw_type :: SpriteType
  raw_offset :: real

record RawTrackData =
  raw_pieces :: "TrackPiece list"
  raw_placed :: "RawSprite list"

datatype JsError = TypeError

definition toNumber :: "IndexValue \<Rightarrow> jsnum" where
  "toNumber i = (case i of NumberValue v \<Rightarrow> v | NullValue \<Rightarrow> Fin 0)"

definition slotOf :: "Segment list \<Rightarrow> IndexValue \<Rightarrow> nat option" where
  \<comment> \<open>the position \<open>segs[i]\<close> reads; \<open>None\<close> when the read gives \<open>undefined\<close>\<close>
  "slotOf segs i =
     (case i of
        NumberValue (Fin v) \<Rightarrow>
          (if 0 \<le> v \<and> of_int \<lfloor>v\<rfloor> = v \<and> nat \<lfloor>v\<rfloor> < length segs
           then Some (nat \<lfloor>v\<rfloor>) else None)
      | _ \<Rightarrow> None)"

definition rawSpriteOf :: "RawSprite \<Rightarrow> Sprite" where
  "rawSpriteOf rs = \<lparr>sprite_type = raw_type rs, sprite_offset = raw_offset rs\<rparr>"

definition placeSprite_js :: "Segment list \<Rightarrow> RawSprite \<Rightarrow> JsError + Segment list" where
  "placeSprite_js segs rs =
     (if jge (toNumber (raw_segmentIndex rs)) (Fin 0)
         \<and> jlt (toNumber (raw_segmentIndex rs)) (Fin (real (length segs)))
      then (case slotOf segs (raw_segmentIndex rs) of
              None \<Rightarrow> Inl TypeError
            | Some k \<Rightarrow>
                Inr (segs[k := (segs ! k)\<lparr>sprites := sprites (segs ! k) @ [rawSpriteOf rs]\<rparr>]))
      else Inr segs)"

fun placeAll_js :: "Segment list \<Rightarrow> RawSprite list \<Rightarrow> JsError + Segment list" where
  "placeAll_js segs [] = Inr segs"
| "placeAll_js segs (rs # rss) =
     (case placeSprite_js segs rs of
        Inl e \<Rightarrow> Inl e
      | Inr segs' \<Rightarrow> placeAll_js segs' rss)"

definition buildFromData_js :: "RawTrackData \<Rightarrow> JsError + Track" where
  "buildFromData_js d =
     (let s0 = foldl addPiece [] (raw_pieces d);
          s1 = (if length s0 = 0 then addStraight s0 100 else s0);
          tlen = real (length s1) * segmentLength;
          s2 = calculateYPositions s1
      in case placeAll_js s2 (raw_placed d) of
           Inl e \<Rightarrow> Inl e
         | Inr segs \<Rightarrow> Inr \<lparr>segments = segs, trackLength = tlen, currentPieces = raw_pieces d\<rparr>)"

definition rawOf :: "PlacedSprite \<Rightarrow> RawSprite" where
  \<comment> \<open>a placed sprite with an integer index, as raw data\<close>
  "rawOf ps =
     \<lparr>raw_id = placed_id ps, raw_segmentIndex = NumberValue (Fin (of_int (segmentIndex ps))),
      raw_type = placed_type ps, raw_offset = placed_offset ps\<rparr>"


section \<open>Double-precision numbers\<close>

text \<open>
  A JavaScript \<open>number\<close> is an IEEE 754 double: a sum or difference is the exact result
  rounded to the nearest number with a 53-bit significand, ties going to the even
  significand.  \<open>normalize\<close> writes \<open>x\<close> as \<open>m * 2 ^ e\<close> with \<open>2 ^ 52 \<le> \<bar>m\<bar> < 2 ^ 53\<close>, or
  with \<open>e = -1074\<close> and a smaller \<open>m\<close> in the subnormal range; its first argument bounds the
  number of halvings and doublings, and 2200 is enough for every double.  \<open>double_of\<close>
  then rounds \<open>m\<close> to an integer.  Overflow to an infinity is not modelled.
\<close>

fun normalize :: "nat \<Rightarrow> real \<Rightarrow> int \<Rightarrow> real \<times> int" where
  "normalize 0 m e = (m, e)"
| "normalize (Suc k) m e =
     (if \<bar>m\<bar> \<ge> 2 ^ 53 then normalize k (m / 2) (e + 1)
      else if \<bar>m\<bar> < 2 ^ 52 \<and> e > - 1074 then normalize k (m * 2) (e - 1)
      else (m, e))"

definition round_half_even :: "real \<Rightarrow> int" where
  "round_half_even m =
     (let f = \<lfloor>m\<rfloor>; d = m - of_int f
      in if d < 1 / 2 then f else if d > 1 / 2 then f + 1
         else if even f then f else f + 1)"

definition pow2 :: "int \<Rightarrow> real" where
  "pow2 e = (if e \<ge> 0 then 2 ^ nat e else 1 / 2 ^ nat (- e))"

definition double_of :: "real \<Rightarrow> real" where
  "double_of x = (let (m, e) = normalize 2200 x 0 in of_int (round_half_even m) * pow2 e)"

definition dadd :: "real \<Rightarrow> real \<Rightarrow> real" where
  \<comment> \<open>\<open>a + b\<close> on doubles\<close>
  "dadd a b = double_of (a + b)"

definition dsub :: "real \<Rightarrow> real \<Rightarrow> real" where
  \<comment> \<open>\<open>a - b\<close> on doubles\<close>
  "dsub a b = double_of (a - b)"

definition calculateYPositions_double :: "Segment list \<Rightarrow> Segment list" where
  \<comment> \<open>the elevation pass as the program runs it, on doubles\<close>
  "calculateYPositions_double segs = calcY dadd 0 segs"

text \<open>
  Two hill pieces of one segment each, of heights 0.1 and 0.2 as the program reads them
  (the nearest doubles), and the segments built from them after the elevation pass on
  doubles.  A piece of length 1 has its only segment in the exit phase, with
  \<open>hill = value * (1 - 0 / 1)\<close>, which is the value itself on doubles too.
\<close>

definition decimalPieces :: "TrackPiece list" where
  "decimalPieces =
     [\<lparr>piece_id = ''a'', piece_type = Hill, piece_length = 1, piece_value = double_of (1 / 10)\<rparr>,
      \<lparr>piece_id = ''b'', piece_type = Hill, piece_length = 1, piece_value = double_of (2 / 10)\<rparr>]"

definition decimalSegments :: "Segment list" where
  "decimalSegments = calculateYPositions_double (foldl addPiece [] decimalPieces)"

section \<open>Auxiliary notions\<close>

text \<open>
  The segments \<open>buildFromData\<close> has built when it starts to place the sprites, and the
  property that no segment of a list carries a sprite.
\<close>

definition baseSegments :: "TrackPiece list \<Rightarrow> Segment list" where
  "baseSegments pcs =
     (let s0 = foldl addPiece [] pcs;
          s1 = (if length s0 = 0 then addStraight s0 100 else s0)
      in calculateYPositions s1)"

definition bare :: "Segment list \<Rightarrow> bool" where
  "bare segs = (\<forall>s \<in> set segs. sprites s = [])"




text \<open>A flat track: one straight of six segments, no sprite.\<close>

definition flatData :: TrackData where
  "flatData =
     \<lparr>pieces = [\<lparr>piece_id = ''s'', piece_type = Straight, piece_length = 6, piece_value = 0\<rparr>],
      placed = []\<rparr>"

text \<open>
  Two games on the flat track, with the renderer's and the integrator's own settings.  In
  the first the player has the initial parameters of the class, and drives at half speed
  near the edge of the grass.  In the second the off-road maximum, 200, is above the
  maximum speed, 100, and the player drives at that maximum with the wheels fully off the
  road.
\<close>

definition sampleGame :: Game where
  "sampleGame =
     \<lparr>track = buildFromData flatData, renderer = defaultRenderer, position = 0,
      player = \<lparr>px = 1.8, speed = 300, maxSpeed = 600, accel = 2, decel = 0.5,
                 offRoadDecel = 1, offRoadMaxSpeed = 200\<rparr>,
      playerY = 0, centrifugalForce = 3.0, steeringRate = 3.0, steeringSpeedScale = 0.5\<rparr>"

definition overdriveGame :: Game where
  "overdriveGame =
     \<lparr>track = buildFromData flatData, renderer = defaultRenderer, position = 0,
      player = \<lparr>px = 2, speed = 100, maxSpeed = 100, accel = 2, decel = 0.5,
                 offRoadDecel = 1, offRoadMaxSpeed = 200\<rparr>,
      playerY = 0, centrifugalForce = 3.0, steeringRate = 3.0, steeringSpeedScale = 0.5\<rparr>"

definition throttle :: InputState where
  "throttle = \<lparr>left = False, right = False, up = True, down = False\<rparr>"



section \<open>Lengths of the built segment store\<close>

lemma length_addSegment: "length (addSegment segs c h) = Suc (length segs)"
  by (simp add: addSegment_def Let_def)

lemma length_foldl_addSegment:
  "length (foldl (\<lambda>s i. addSegment s (f i) (g i)) segs xs) = length segs + length xs"
  by (induction xs arbitrary: segs) (simp_all add: length_addSegment)

lemma length_for_count:
  "length (for_count cnt (\<lambda>s i. addSegment s (f i) (g i)) segs) = length segs + nat cnt"
  by (simp add: for_count_def length_foldl_addSegment)

lemma length_addStraight: "length (addStraight segs cnt) = length segs + nat cnt"
  by (simp add: addStraight_def length_for_count)

lemma length_addCurve:
  "length (addCurve segs cnt c) =
     length segs + nat (enterCount cnt) + nat (holdCount cnt) + nat (exitCount cnt)"
  by (simp add: addCurve_def Let_def length_for_count)

lemma length_addHill:
  "length (addHill segs cnt h) =
     length segs + nat (enterCount cnt) + nat (holdCount cnt) + nat (exitCount cnt)"
  by (simp add: addHill_def Let_def length_for_count)

lemma length_calcY: "length (calcY add y segs) = length segs"
  by (induction segs arbitrary: y) simp_all

lemma length_placeSprite: "length (placeSprite segs ps) = length segs"
  by (simp add: placeSprite_def pushSprite_def)

lemma length_foldl_placeSprite: "length (foldl placeSprite segs pss) = length segs"
  by (induction pss arbitrary: segs) (simp_all add: length_placeSprite)

lemma length_addSpritesFrom: "length (fst (addSpritesFrom env k i segs)) = length segs"
  by (induction segs arbitrary: k i) (simp_all add: split_beta Let_def)

lemma length_buildFromData:
  "length (segments (buildFromData d)) =
     (if foldl addPiece [] (pieces d) = [] then 100 else length (foldl addPiece [] (pieces d)))"
  by (simp add: buildFromData_def Let_def length_foldl_placeSprite calculateYPositions_def
      length_calcY length_addStraight)

lemma buildFromData_nonempty: "segments (buildFromData d) \<noteq> []"
proof
  assume "segments (buildFromData d) = []"
  then have "length (segments (buildFromData d)) = 0" by simp
  then show False unfolding length_buildFromData by (simp split: if_splits)
qed

section \<open>Track length after a build\<close>

text \<open>
  C7.  After \<open>buildFromData\<close> on any track data, and after \<open>buildRandomTrack\<close> for any
  random source, \<open>trackLength\<close> is the number of segments times \<open>segmentLength\<close>.  When the
  pieces of the data produce no segment at all, the build adds a straight of length 100,
  so the store then has 100 segments and the equation still holds.
\<close>

theorem trackLength_after_build:
  "trackLength (buildFromData d) = real (length (segments (buildFromData d))) * segmentLength
   \<and> trackLength (fst (buildRandomTrack env k))
       = real (length (segments (fst (buildRandomTrack env k)))) * segmentLength
   \<and> (foldl addPiece [] (pieces d) = [] \<longrightarrow>
        length (segments (buildFromData d)) = 100
        \<and> trackLength (buildFromData d) = 100 * segmentLength)"
proof -
  have a: "trackLength (buildFromData d) = real (length (segments (buildFromData d))) * segmentLength"
    by (simp add: buildFromData_def Let_def length_foldl_placeSprite calculateYPositions_def
        length_calcY)
  have b: "trackLength (fst (buildRandomTrack env k))
       = real (length (segments (fst (buildRandomTrack env k)))) * segmentLength"
    by (simp add: buildRandomTrack_def Let_def split_beta addSprites_def length_addSpritesFrom
        calculateYPositions_def length_calcY)
  have c: "foldl addPiece [] (pieces d) = [] \<Longrightarrow> length (segments (buildFromData d)) = 100"
    by (simp add: length_buildFromData)
  show ?thesis using a b c by simp
qed

theorem trackLength_after_build_witness:
  "foldl addPiece [] (pieces \<lparr>pieces = [], placed = []\<rparr>) = []
   \<and> length (segments (buildFromData \<lparr>pieces = [], placed = []\<rparr>)) = 100
   \<and> trackLength (buildFromData \<lparr>pieces = [], placed = []\<rparr>) = 20000"
  using trackLength_after_build [of "\<lparr>pieces = [], placed = []\<rparr>"]
  by (simp add: segmentLength_def)

section \<open>Segment lookup\<close>

lemma js_rem_int_bounds:
  assumes "n > 0"
  shows "- n < js_rem_int a n" "js_rem_int a n < n"
proof -
  obtain m where m: "m = a mod n" by simp
  obtain m' where m': "m' = (- a) mod n" by simp
  have b: "0 \<le> m \<and> m < n \<and> 0 \<le> m' \<and> m' < n"
    using assms m m' by simp
  have e: "js_rem_int a n = (if a < 0 then - m' else m)"
    using assms by (simp add: js_rem_int_def m m')
  show "- n < js_rem_int a n" using b e by (simp split: if_splits)
  show "js_rem_int a n < n" using b e by (simp split: if_splits)
qed

lemma getSegment_Some:
  assumes "segments t \<noteq> []"
  shows "\<exists>i < length (segments t). getSegment t z = Some (segments t ! i)"
proof -
  let ?n = "int (length (segments t))"
  have n: "?n > 0" using assms by simp
  let ?i = "js_rem_int \<lfloor>z / segmentLength\<rfloor> ?n"
  let ?j = "if ?i < 0 then ?i + ?n else ?i"
  have "0 \<le> ?j" "?j < ?n"
    using js_rem_int_bounds[OF n, of "\<lfloor>z / segmentLength\<rfloor>"] by auto
  then have "getSegment t z = Some (segments t ! nat ?j)" "nat ?j < length (segments t)"
    using n by (auto simp: getSegment_def Let_def)
  then show ?thesis by blast
qed

text \<open>
  C10.  On a track whose segment store is not empty, \<open>getSegment z\<close> returns a segment of
  the store, \<open>segments[i]\<close> with \<open>0 \<le> i < segments.length\<close>, for every real \<open>z\<close>: negative,
  or larger in magnitude than the track length.  The read is never out of range.
\<close>

theorem getSegment_in_bounds:
  "segments t \<noteq> [] \<Longrightarrow> \<exists>i < length (segments t). getSegment t z = Some (segments t ! i)"
  by (rule getSegment_Some)

theorem getSegment_in_bounds_witness:
  "segments (buildFromData \<lparr>pieces = [], placed = []\<rparr>) \<noteq> []
   \<and> (\<exists>i < length (segments (buildFromData \<lparr>pieces = [], placed = []\<rparr>)).
         getSegment (buildFromData \<lparr>pieces = [], placed = []\<rparr>) (- 1000000)
           = Some (segments (buildFromData \<lparr>pieces = [], placed = []\<rparr>) ! i))"
  using getSegment_in_bounds [OF buildFromData_nonempty, of "\<lparr>pieces = [], placed = []\<rparr>" "- 1000000"]
        buildFromData_nonempty [of "\<lparr>pieces = [], placed = []\<rparr>"]
  by simp

section \<open>Projection guard\<close>

text \<open>
  C6.  \<open>project\<close> sets \<open>camera.z\<close> to the point's world \<open>z\<close> minus the camera's.  When that
  is not positive, the projected point has \<open>scale = 0\<close>, \<open>screen.x = 0\<close>,
  \<open>screen.y\<close> the viewport height and \<open>screen.w = 0\<close>: the result is the point with these
  fields written and nothing else, so the quotient by \<open>camera.z\<close> is not computed.  In
  particular every projected point with \<open>camera.z \<le> 0\<close> has \<open>scale = 0\<close>.
\<close>

theorem project_guard:
  "vz (camera (project r p cameraX cameraY cameraZ)) = vz (world p) - cameraZ
   \<and> (vz (camera (project r p cameraX cameraY cameraZ)) \<le> 0 \<longrightarrow>
        project r p cameraX cameraY cameraZ =
          p\<lparr>camera := \<lparr>vx = vx (world p) - cameraX, vy = vy (world p) - cameraY,
                        vz = vz (world p) - cameraZ\<rparr>,
            scale := 0,
            screen := \<lparr>sx = 0, sy = height r, sw = 0\<rparr>\<rparr>
        \<and> scale (project r p cameraX cameraY cameraZ) = 0
        \<and> sx (screen (project r p cameraX cameraY cameraZ)) = 0
        \<and> sy (screen (project r p cameraX cameraY cameraZ)) = height r
        \<and> sw (screen (project r p cameraX cameraY cameraZ)) = 0)"
  by (simp add: project_def Let_def)

theorem project_guard_witness:
  "vz (camera (project defaultRenderer (createScreenCoord 3) 0 1000 600)) \<le> 0
   \<and> scale (project defaultRenderer (createScreenCoord 3) 0 1000 600) = 0
   \<and> sy (screen (project defaultRenderer (createScreenCoord 3) 0 1000 600)) = 480"
  using project_guard [of defaultRenderer "createScreenCoord 3" 0 1000 600]
  by (simp add: createScreenCoord_def segmentLength_def defaultRenderer_def)

section \<open>Placed sprites\<close>

lemma nth_placeSprite:
  "i < length segs \<Longrightarrow>
   placeSprite segs ps ! i =
     (if segmentIndex ps = int i then (segs ! i)\<lparr>sprites := sprites (segs ! i) @ [spriteOf ps]\<rparr>
      else segs ! i)"
  by (auto simp: placeSprite_def pushSprite_def nth_list_update)

lemma nth_foldl_placeSprite:
  "i < length segs \<Longrightarrow>
   foldl placeSprite segs pss ! i =
     (segs ! i)\<lparr>sprites := sprites (segs ! i)
        @ map spriteOf (filter (\<lambda>ps. segmentIndex ps = int i) pss)\<rparr>"
proof (induction pss arbitrary: segs)
  case Nil
  then show ?case by simp
next
  case (Cons ps pss)
  have "i < length (placeSprite segs ps)" using Cons.prems by (simp add: length_placeSprite)
  from Cons.IH[OF this] show ?case
    using Cons.prems by (simp add: nth_placeSprite)
qed

lemma buildFromData_base:
  "buildFromData d = \<lparr>segments = foldl placeSprite (baseSegments (pieces d)) (placed d),
      trackLength = real (length (baseSegments (pieces d))) * segmentLength,
      currentPieces = pieces d\<rparr>"
  by (simp add: buildFromData_def baseSegments_def Let_def calculateYPositions_def length_calcY)

lemma bare_addSegment: "bare segs \<Longrightarrow> bare (addSegment segs c h)"
  by (simp add: bare_def addSegment_def Let_def)

lemma bare_foldl_addSegment:
  "bare segs \<Longrightarrow> bare (foldl (\<lambda>s i. addSegment s (f i) (g i)) segs xs)"
  by (induction xs arbitrary: segs) (simp_all add: bare_addSegment)

lemma bare_for_count: "bare segs \<Longrightarrow> bare (for_count cnt (\<lambda>s i. addSegment s (f i) (g i)) segs)"
  by (simp add: for_count_def bare_foldl_addSegment)

lemma bare_addPiece: "bare segs \<Longrightarrow> bare (addPiece segs p)"
  unfolding addPiece_def addStraight_def addCurve_def addHill_def Let_def
  by (cases "piece_type p") (simp_all add: bare_for_count)

lemma bare_foldl_addPiece: "bare segs \<Longrightarrow> bare (foldl addPiece segs ps)"
  by (induction ps arbitrary: segs) (simp_all add: bare_addPiece)

lemma bare_calcY: "bare segs \<Longrightarrow> bare (calcY add y segs)"
  by (induction segs arbitrary: y) (simp_all add: bare_def)

lemma bare_baseSegments: "bare (baseSegments pcs)"
proof -
  have 0: "bare (foldl addPiece [] pcs)" by (rule bare_foldl_addPiece) (simp add: bare_def)
  then have "bare (addStraight (foldl addPiece [] pcs) 100)"
    unfolding addStraight_def by (rule bare_for_count)
  with 0 show ?thesis
    by (cases "foldl addPiece [] pcs = []")
       (simp_all add: baseSegments_def Let_def calculateYPositions_def bare_calcY)
qed

lemma sprites_baseSegments: "i < length (baseSegments pcs) \<Longrightarrow> sprites (baseSegments pcs ! i) = []"
  using bare_baseSegments[of pcs] by (simp add: bare_def)

lemma nth_segments_buildFromData:
  assumes "i < length (segments (buildFromData d))"
  shows "segments (buildFromData d) ! i =
     (baseSegments (pieces d) ! i)\<lparr>sprites := map spriteOf (filter (\<lambda>ps. segmentIndex ps = int i) (placed d))\<rparr>"
proof -
  have i: "i < length (baseSegments (pieces d))"
    using assms by (simp add: buildFromData_base length_foldl_placeSprite)
  show ?thesis
    by (simp add: buildFromData_base nth_foldl_placeSprite[OF i] sprites_baseSegments[OF i])
qed

lemma length_segments_buildFromData:
  "length (segments (buildFromData d)) = length (baseSegments (pieces d))"
  by (simp add: buildFromData_base length_foldl_placeSprite)

subsection \<open>Indices that are not array positions\<close>






lemma buildFromData_js_base:
  "buildFromData_js d =
     (case placeAll_js (baseSegments (raw_pieces d)) (raw_placed d) of
        Inl e \<Rightarrow> Inl e
      | Inr segs \<Rightarrow> Inr \<lparr>segments = segs,
            trackLength = real (length (baseSegments (raw_pieces d))) * segmentLength,
            currentPieces = raw_pieces d\<rparr>)"
  by (simp add: buildFromData_js_def baseSegments_def Let_def calculateYPositions_def length_calcY
      split: sum.splits)



lemma placeSprite_js_rawOf: "placeSprite_js segs (rawOf ps) = Inr (placeSprite segs ps)"
proof -
  have "nat \<lfloor>real_of_int (segmentIndex ps)\<rfloor> = nat (segmentIndex ps)" by simp
  then show ?thesis
    by (auto simp: placeSprite_js_def placeSprite_def pushSprite_def rawOf_def toNumber_def
        slotOf_def rawSpriteOf_def spriteOf_def)
qed

lemma placeAll_js_rawOf: "placeAll_js segs (map rawOf pss) = Inr (foldl placeSprite segs pss)"
  by (induction pss arbitrary: segs) (simp_all add: placeSprite_js_rawOf)

lemma buildFromData_js_integer:
  "buildFromData_js \<lparr>raw_pieces = pieces d, raw_placed = map rawOf (placed d)\<rparr> = Inr (buildFromData d)"
  by (simp add: buildFromData_js_base buildFromData_base placeAll_js_rawOf)




section \<open>Export and rebuild\<close>

lemma filter_exportSegment:
  "map spriteOf (filter (\<lambda>ps. segmentIndex ps = int j) (fst (exportSegment env k i sps)))
     = (if i = j then sps else [])"
  by (induction sps arbitrary: k) (auto simp: split_beta generateId_def spriteOf_def)

lemma filter_exportFrom:
  "map spriteOf (filter (\<lambda>ps. segmentIndex ps = int j) (fst (exportFrom env k i segs)))
     = (if i \<le> j \<and> j < i + length segs then sprites (segs ! (j - i)) else [])"
proof (induction segs arbitrary: k i)
  case Nil
  then show ?case by auto
next
  case (Cons s ss)
  show ?case
    by (auto simp: split_beta filter_exportSegment Cons.IH nth_Cons' Suc_diff_le)
qed

lemma pieces_getTrackData: "pieces (fst (getTrackData env k t)) = currentPieces t"
  by (simp add: getTrackData_def split_beta)

lemma placed_getTrackData: "placed (fst (getTrackData env k t)) = fst (exportFrom env k 0 (segments t))"
  by (simp add: getTrackData_def split_beta)

text \<open>
  C1.  Building a track from any track data, exporting it with \<open>getTrackData\<close> (whatever
  identifiers the export draws) and building again from the exported data gives the same
  track as the first build: the same segments with the same sprites in the same order on
  each, the same track length and the same retained piece list.  The exported piece list
  is the piece list of the data itself.
\<close>

theorem export_import_roundtrip:
  "buildFromData (fst (getTrackData env k (buildFromData d))) = buildFromData d
   \<and> pieces (fst (getTrackData env k (buildFromData d))) = pieces d"
proof -
  have "buildFromData (fst (getTrackData env k (buildFromData d))) = buildFromData d"
  proof -
    let ?d' = "fst (getTrackData env k (buildFromData d))"
    have p: "pieces ?d' = pieces d"
      by (simp add: pieces_getTrackData buildFromData_base)
    have len: "length (segments (buildFromData ?d')) = length (segments (buildFromData d))"
      by (simp add: length_segments_buildFromData p)
    have "segments (buildFromData ?d') ! i = segments (buildFromData d) ! i"
      if i: "i < length (segments (buildFromData d))" for i
    proof -
      have "map spriteOf (filter (\<lambda>ps. segmentIndex ps = int i) (placed ?d'))
          = sprites (segments (buildFromData d) ! i)"
        using i by (simp add: placed_getTrackData filter_exportFrom)
      also have "\<dots> = map spriteOf (filter (\<lambda>ps. segmentIndex ps = int i) (placed d))"
        by (simp add: nth_segments_buildFromData[OF i])
      finally show ?thesis
        using i len by (simp add: nth_segments_buildFromData p)
    qed
    then have "segments (buildFromData ?d') = segments (buildFromData d)"
      using len by (simp add: nth_equalityI)
    moreover have "trackLength (buildFromData ?d') = trackLength (buildFromData d)"
      by (simp add: buildFromData_base pieces_getTrackData)
    moreover have "currentPieces (buildFromData ?d') = currentPieces (buildFromData d)"
      by (simp add: buildFromData_base pieces_getTrackData)
    ultimately show ?thesis by simp
  qed
  then show ?thesis by (simp add: pieces_getTrackData buildFromData_base)
qed

section \<open>The enter/hold/exit envelope\<close>

lemma curve_foldl_addSegment:
  "map curve (foldl (\<lambda>s i. addSegment s (f i) (g i)) segs xs) = map curve segs @ map f xs"
  by (induction xs arbitrary: segs) (simp_all add: addSegment_def Let_def)

lemma hill_foldl_addSegment:
  "map hill (foldl (\<lambda>s i. addSegment s (f i) (g i)) segs xs) = map hill segs @ map g xs"
  by (induction xs arbitrary: segs) (simp_all add: addSegment_def Let_def)

lemma curve_addCurve:
  "map curve (addCurve segs cnt c) =
     map curve segs
     @ map (\<lambda>i. (c * real i) / of_int (enterCount cnt)) [0..<nat (enterCount cnt)]
     @ replicate (nat (holdCount cnt)) c
     @ map (\<lambda>i. c * (1 - real i / of_int (exitCount cnt))) [0..<nat (exitCount cnt)]"
  by (simp add: addCurve_def Let_def for_count_def curve_foldl_addSegment map_replicate_const)

lemma hill_addHill:
  "map hill (addHill segs cnt h) =
     map hill segs
     @ map (\<lambda>i. (h * real i) / of_int (enterCount cnt)) [0..<nat (enterCount cnt)]
     @ replicate (nat (holdCount cnt)) h
     @ map (\<lambda>i. h * (1 - real i / of_int (exitCount cnt))) [0..<nat (exitCount cnt)]"
  by (simp add: addHill_def Let_def for_count_def hill_foldl_addSegment map_replicate_const)

lemma counts_ge4:
  assumes "4 \<le> cnt"
  shows "1 \<le> enterCount cnt" "2 \<le> holdCount cnt" "1 \<le> exitCount cnt"
  using assms unfolding enterCount_def holdCount_def exitCount_def by linarith+

lemma envelope_hold:
  assumes "j < nat hc"
  shows "(pre @ en @ replicate (nat hc) (v::real) @ ex) ! (length pre + length en + j) = v"
  using assms by (simp add: nth_append)

lemma envelope_last:
  assumes "1 \<le> (xc::int)"
  shows "last (pre @ en @ hd' @ map (\<lambda>i. (v::real) * (1 - real i / of_int xc)) [0..<nat xc]) = v / of_int xc"
proof -
  have ne: "[0..<nat xc] \<noteq> []" using assms by simp
  have l: "last [0..<nat xc] = nat xc - 1" using assms by (simp add: last_upt)
  have "real (nat xc - 1) = of_int xc - 1" using assms by (simp add: of_nat_diff)
  then have "v * (1 - real (nat xc - 1) / of_int xc) = v / of_int xc"
    using assms by (simp add: field_simps)
  then show ?thesis using ne l by (simp add: last_map)
qed

text \<open>
  C2, as the specification states it, fails: the exit ramp of a piece is
  \<open>value * (1 - i / exitCount)\<close> for \<open>i\<close> from 0 to \<open>exitCount - 1\<close>, so its last segment
  is one step short of 0.  For a curve of length 40 and value 8 the last segment has
  curvature 0.8.
\<close>

theorem exit_phase_not_zero:
  "curve (last (addCurve [] 40 8)) = 4 / 5"
proof -
  have "addCurve [] 40 8 \<noteq> []" using length_addCurve[of "[]" 40 8]
    by (auto simp: enterCount_def)
  then have "curve (last (addCurve [] 40 8)) = last (map curve (addCurve [] 40 8))"
    by (simp add: last_map)
  also have "\<dots> = 8 / of_int (exitCount 40)"
    unfolding curve_addCurve using envelope_last[of "exitCount 40" "[]" _ _ 8]
    by (simp add: exitCount_def enterCount_def holdCount_def)
  finally show ?thesis by (simp add: exitCount_def enterCount_def holdCount_def)
qed

text \<open>
  C2, amended.  For a curve or hill piece of length at least 4, appended to any segment
  store, the hold phase has at least two segments and each of them contributes exactly
  the piece's value; the exit phase has at least one segment and its last segment
  contributes \<open>value / exitCount\<close>, which is 0 only for a piece of value 0.
\<close>

theorem envelope_hold_and_exit:
  assumes "4 \<le> cnt"
  shows "2 \<le> holdCount cnt \<and> 1 \<le> exitCount cnt
     \<and> (\<forall>j < nat (holdCount cnt).
           curve (addCurve segs cnt v ! (length segs + nat (enterCount cnt) + j)) = v)
     \<and> curve (last (addCurve segs cnt v)) = v / of_int (exitCount cnt)
     \<and> (\<forall>j < nat (holdCount cnt).
           hill (addHill segs cnt v ! (length segs + nat (enterCount cnt) + j)) = v)
     \<and> hill (last (addHill segs cnt v)) = v / of_int (exitCount cnt)"
proof -
  note c = counts_ge4[OF assms]
  have lc: "length (addCurve segs cnt v)
      = length segs + nat (enterCount cnt) + nat (holdCount cnt) + nat (exitCount cnt)"
    by (rule length_addCurve)
  have lh: "length (addHill segs cnt v)
      = length segs + nat (enterCount cnt) + nat (holdCount cnt) + nat (exitCount cnt)"
    by (rule length_addHill)
  have nec: "addCurve segs cnt v \<noteq> []" and neh: "addHill segs cnt v \<noteq> []"
    using lc lh c(3) by auto
  have hold_c: "curve (addCurve segs cnt v ! (length segs + nat (enterCount cnt) + j)) = v"
    if j: "j < nat (holdCount cnt)" for j
  proof -
    have "length segs + nat (enterCount cnt) + j < length (addCurve segs cnt v)"
      using j lc by simp
    then have "curve (addCurve segs cnt v ! (length segs + nat (enterCount cnt) + j))
        = map curve (addCurve segs cnt v) ! (length segs + nat (enterCount cnt) + j)"
      by simp
    also have "\<dots> = v"
      unfolding curve_addCurve
      using envelope_hold[OF j, of "map curve segs"
          "map (\<lambda>i. (v * real i) / of_int (enterCount cnt)) [0..<nat (enterCount cnt)]" v]
      by simp
    finally show ?thesis .
  qed
  have hold_h: "hill (addHill segs cnt v ! (length segs + nat (enterCount cnt) + j)) = v"
    if j: "j < nat (holdCount cnt)" for j
  proof -
    have "length segs + nat (enterCount cnt) + j < length (addHill segs cnt v)"
      using j lh by simp
    then have "hill (addHill segs cnt v ! (length segs + nat (enterCount cnt) + j))
        = map hill (addHill segs cnt v) ! (length segs + nat (enterCount cnt) + j)"
      by simp
    also have "\<dots> = v"
      unfolding hill_addHill
      using envelope_hold[OF j, of "map hill segs"
          "map (\<lambda>i. (v * real i) / of_int (enterCount cnt)) [0..<nat (enterCount cnt)]" v]
      by simp
    finally show ?thesis .
  qed
  have last_c: "curve (last (addCurve segs cnt v)) = v / of_int (exitCount cnt)"
  proof -
    have "curve (last (addCurve segs cnt v)) = last (map curve (addCurve segs cnt v))"
      using nec by (simp add: last_map)
    then show ?thesis unfolding curve_addCurve using envelope_last[OF c(3)] by simp
  qed
  have last_h: "hill (last (addHill segs cnt v)) = v / of_int (exitCount cnt)"
  proof -
    have "hill (last (addHill segs cnt v)) = last (map hill (addHill segs cnt v))"
      using neh by (simp add: last_map)
    then show ?thesis unfolding hill_addHill using envelope_last[OF c(3)] by simp
  qed
  show ?thesis using c hold_c hold_h last_c last_h by simp
qed

theorem envelope_hold_and_exit_witness:
  "(4::int) \<le> 40
   \<and> hill (addHill [] 40 50 ! 10) = 50
   \<and> hill (addHill [] 40 50 ! 29) = 50
   \<and> hill (last (addHill [] 40 50)) = 5"
proof -
  have h: "(4::int) \<le> 40" by simp
  have a: "\<forall>j < 20. hill (addHill [] 40 50 ! (10 + j)) = 50"
    and b: "hill (last (addHill [] 40 50)) = 5"
    using envelope_hold_and_exit [OF h, of "[]" 50]
    by (simp_all add: enterCount_def holdCount_def exitCount_def)
  show ?thesis using a [rule_format, of 0] a [rule_format, of 19] b by simp
qed

section \<open>The occlusion horizon of the road pass\<close>

lemma pool_roadStep:
  "pool (roadStep r t pos plx cpy b st n) = pool st @ [((b + n) mod length (pass_segments st), maxy st)]"
  by (simp add: roadStep_def Let_def)

lemma length_pass_roadStep:
  "length (pass_segments (roadStep r t pos plx cpy b st n)) = length (pass_segments st)"
  by (simp add: roadStep_def Let_def)

lemma pool_foldl_roadStep:
  "\<exists>ys. pool (foldl (roadStep r t pos plx cpy b) st xs) = pool st @ ys \<and> length ys = length xs"
proof (induction xs arbitrary: st)
  case Nil
  then show ?case by simp
next
  case (Cons x xs)
  from Cons.IH[of "roadStep r t pos plx cpy b st x"]
  show ?case by (auto simp: pool_roadStep)
qed

lemma maxy_values_foldl_roadStep:
  assumes "xs \<noteq> []"
  shows "take (Suc (length (pool st))) (maxy_values (foldl (roadStep r t pos plx cpy b) st xs))
           = maxy_values st"
proof -
  obtain x xs' where x: "xs = x # xs'" using assms by (cases xs) auto
  obtain ys where ys: "pool (foldl (roadStep r t pos plx cpy b) (roadStep r t pos plx cpy b st x) xs')
      = pool (roadStep r t pos plx cpy b st x) @ ys"
    using pool_foldl_roadStep by blast
  show ?thesis
    by (simp add: x ys maxy_values_def pool_roadStep)
qed

lemma roadPassN_split:
  assumes "n \<le> m" and "roadPassN r t pos plx ply n = Some st"
  shows "\<exists>cpy b. roadPassN r t pos plx ply m = Some (foldl (roadStep r t pos plx cpy b) st [n..<m])"
proof -
  have u: "[0..<m] = [0..<n] @ [n..<m]" using assms(1) by (metis le_add_diff_inverse upt_add_eq_append zero_le)
  show ?thesis
    using assms(2) unfolding roadPassN_def u
    by (auto simp: Let_def split: option.splits)
qed

lemma length_pool_roadPassN:
  assumes "roadPassN r t pos plx ply n = Some st"
  shows "length (pool st) = n"
proof -
  from assms obtain cpy b st0 where st: "st = foldl (roadStep r t pos plx cpy b) st0 [0..<n]" and p0: "pool st0 = []" 
    unfolding roadPassN_def by (auto simp: Let_def split: option.splits)
  show ?thesis using pool_foldl_roadStep[of r t pos plx cpy b st0 "[0..<n]"] by (auto simp: st p0)
qed

lemma maxy_values_prefix:
  assumes "n < m" and "roadPassN r t pos plx ply n = Some st" and "roadPassN r t pos plx ply m = Some st'"
  shows "take (Suc n) (maxy_values st') = maxy_values st"
proof -
  obtain cpy b where "roadPassN r t pos plx ply m = Some (foldl (roadStep r t pos plx cpy b) st [n..<m])"
    using roadPassN_split[OF _ assms(2), of m] assms(1) by auto
  then have st': "st' = foldl (roadStep r t pos plx cpy b) st [n..<m]" using assms(3) by simp
  have "[n..<m] \<noteq> []" using assms(1) by simp
  from maxy_values_foldl_roadStep[OF this, of st r t pos plx cpy b]
  show ?thesis by (simp add: st' length_pool_roadPassN[OF assms(2)])
qed

lemma roadPassN_Some:
  "segments t \<noteq> [] \<Longrightarrow> \<exists>st. roadPassN r t pos plx ply n = Some st"
  using getSegment_Some[of t pos] by (auto simp: roadPassN_def Let_def)

lemma roadStep_maxy:
  assumes "pass_segments st \<noteq> []"
  shows "let st' = roadStep r t pos plx cpy b st n;
             seg = pass_segments st' ! ((b + n) mod length (pass_segments st))
         in maxy st' = maxy st
            \<or> (maxy st' = sy (screen (p1 seg)) \<and> sy (screen (p2 seg)) < maxy st
                \<and> sy (screen (p2 seg)) < maxy st' \<and> cameraDepth r < vz (camera (p1 seg)))"
proof -
  have "(b + n) mod length (pass_segments st) < length (pass_segments st)" using assms by simp
  then show ?thesis
    by (auto simp: roadStep_def Let_def)
qed


lemma length_pass_foldl_roadStep:
  "length (pass_segments (foldl (roadStep r t pos plx cpy b) st xs)) = length (pass_segments st)"
  by (induction xs arbitrary: st) (simp_all add: length_pass_roadStep)

lemma pass_segments_roadPassN:
  assumes "roadPassN r t pos plx ply n = Some st"
  shows "length (pass_segments st) = length (segments t)"
  using assms unfolding roadPassN_def
  by (auto simp: Let_def length_pass_foldl_roadStep split: option.splits)

lemma flat_pass_prefix: "map_option maxy_values (roadPassN defaultRenderer (buildFromData flatData) 0 0 None 5) = Some [480, 480, 480, 480, 480, 492]"
  by code_simp

text \<open>
  C3, as the specification states it, fails.  The first segment drawn only has its far
  edge above the bottom of the viewport; its near edge, which becomes the new \<open>maxy\<close>, lies
  below it.  On a flat track, camera at the start, with the renderer's own settings, the
  values of \<open>maxy\<close> begin 480, 480, 480, 480, 480, 492.
\<close>

theorem horizon_rises: "map_option (take 6) (maxy_sequence defaultRenderer (buildFromData flatData) 0 0 None)
   = Some [480, 480, 480, 480, 480, 492]"
proof -
  obtain st where st: "roadPassN defaultRenderer (buildFromData flatData) 0 0 None 5 = Some st"
    using roadPassN_Some[OF buildFromData_nonempty] by blast
  obtain st' where st': "roadPassN defaultRenderer (buildFromData flatData) 0 0 None 350 = Some st'"
    using roadPassN_Some[OF buildFromData_nonempty] by blast
  have v: "maxy_values st = [480, 480, 480, 480, 480, 492]" using flat_pass_prefix st by simp
  have "take 6 (maxy_values st') = maxy_values st"
    using maxy_values_prefix[OF _ st st'] by simp
  moreover have "drawDistance defaultRenderer = 350" by (simp add: defaultRenderer_def)
  ultimately show ?thesis
    by (simp add: maxy_sequence_def roadPass_def st' v)
qed

text \<open>
  C3, amended.  On a track with segments the pass runs, its values of \<open>maxy\<close> start with
  the viewport height, and each iteration appends one value: either the previous one, or
  \<open>p1.screen.y\<close> of the segment the iteration has projected, and this only when that
  segment's \<open>p2.screen.y\<close> is strictly less than the previous \<open>maxy\<close> and than the new
  one.  Nothing bounds the new value by the previous one.
\<close>

theorem horizon_step:
  assumes "segments t \<noteq> []"
  shows "(\<exists>st0. roadPassN r t pos plx ply 0 = Some st0 \<and> maxy_values st0 = [height r])
     \<and> (\<exists>st st'. roadPassN r t pos plx ply n = Some st
          \<and> roadPassN r t pos plx ply (Suc n) = Some st'
          \<and> maxy_values st' = maxy_values st @ [maxy st']
          \<and> (maxy st' = maxy st
              \<or> (let seg = pass_segments st' ! fst (last (pool st'))
                  in maxy st' = sy (screen (p1 seg))
                     \<and> sy (screen (p2 seg)) < maxy st
                     \<and> sy (screen (p2 seg)) < maxy st')))"
proof -
  obtain st0 where st0: "roadPassN r t pos plx ply 0 = Some st0"
    using roadPassN_Some[OF assms] by blast
  then have v0: "maxy_values st0 = [height r]"
    by (auto simp: roadPassN_def Let_def maxy_values_def split: option.splits)
  obtain st where st: "roadPassN r t pos plx ply n = Some st"
    using roadPassN_Some[OF assms] by blast
  obtain cpy b where st': "roadPassN r t pos plx ply (Suc n)
        = Some (roadStep r t pos plx cpy b st n)"
    using roadPassN_split[OF _ st, of "Suc n"] by auto
  let ?st' = "roadStep r t pos plx cpy b st n"
  have ne: "pass_segments st \<noteq> []"
    using pass_segments_roadPassN[OF st] assms by auto
  have p: "pool ?st' = pool st @ [((b + n) mod length (pass_segments st), maxy st)]"
    by (rule pool_roadStep)
  have v: "maxy_values ?st' = maxy_values st @ [maxy ?st']"
    by (simp add: maxy_values_def p)
  have "maxy ?st' = maxy st
      \<or> (let seg = pass_segments ?st' ! fst (last (pool ?st'))
          in maxy ?st' = sy (screen (p1 seg))
             \<and> sy (screen (p2 seg)) < maxy st
             \<and> sy (screen (p2 seg)) < maxy ?st')"
    using roadStep_maxy[OF ne, of r t pos plx cpy b n] by (auto simp: p Let_def)
  then show ?thesis using st0 v0 st st' v by blast
qed

theorem horizon_step_witness:
  "segments (buildFromData flatData) \<noteq> []
   \<and> (\<exists>st st'. roadPassN defaultRenderer (buildFromData flatData) 0 0 None 4 = Some st
          \<and> roadPassN defaultRenderer (buildFromData flatData) 0 0 None (Suc 4) = Some st'
          \<and> maxy_values st' = maxy_values st @ [maxy st']
          \<and> (maxy st' = maxy st
              \<or> (let seg = pass_segments st' ! fst (last (pool st'))
                  in maxy st' = sy (screen (p1 seg))
                     \<and> sy (screen (p2 seg)) < maxy st
                     \<and> sy (screen (p2 seg)) < maxy st')))"
  using horizon_step [OF buildFromData_nonempty, of defaultRenderer flatData 0 0 None 4]
        buildFromData_nonempty [of flatData]
  by blast


section \<open>One tick of the vehicle integrator\<close>

lemma wrapAbove_fuel:
  assumes "0 < len"
  shows "pos < real n * len \<Longrightarrow> \<exists>y. wrapAbove len pos = Some y"
proof (induction n arbitrary: pos)
  case 0
  then have "\<not> pos \<ge> len" using assms by simp
  then show ?case by (subst wrapAbove.simps) simp
next
  case (Suc n)
  show ?case
  proof (cases "pos \<ge> len")
    case True
    have "pos - len < real n * len" using Suc.prems by (simp add: algebra_simps)
    from Suc.IH[OF this] obtain y where "wrapAbove len (pos - len) = Some y" by blast
    then show ?thesis using True by (subst wrapAbove.simps) simp
  next
    case False
    then show ?thesis by (subst wrapAbove.simps) simp
  qed
qed

lemma wrapAbove_Some:
  assumes "0 < len"
  shows "\<exists>y. wrapAbove len pos = Some y"
proof -
  obtain n where "pos / len < real n" using reals_Archimedean2 by blast
  then have "pos < real n * len" using assms by (simp add: pos_divide_less_eq)
  then show ?thesis by (rule wrapAbove_fuel[OF assms])
qed

lemma wrapBelow_fuel:
  assumes "0 < len"
  shows "0 \<le> pos + real n * len \<Longrightarrow> \<exists>y. wrapBelow len pos = Some y"
proof (induction n arbitrary: pos)
  case 0
  then show ?case by (subst wrapBelow.simps) simp
next
  case (Suc n)
  show ?case
  proof (cases "pos < 0")
    case True
    have "0 \<le> (pos + len) + real n * len" using Suc.prems by (simp add: algebra_simps)
    from Suc.IH[OF this] obtain y where "wrapBelow len (pos + len) = Some y" by blast
    then show ?thesis using True by (subst wrapBelow.simps) simp
  next
    case False
    then show ?thesis by (subst wrapBelow.simps) simp
  qed
qed

lemma wrapBelow_Some:
  assumes "0 < len"
  shows "\<exists>y. wrapBelow len pos = Some y"
proof -
  obtain n where "(- pos) / len < real n" using reals_Archimedean2 by blast
  then have "- pos < real n * len" using assms by (simp only: pos_divide_less_eq)
  then have "0 \<le> pos + real n * len" by simp
  then show ?thesis by (rule wrapBelow_fuel[OF assms])
qed

lemma update_Some:
  assumes "maxSpeed (player g) \<noteq> 0" and "segments (track g) \<noteq> []" and "0 < trackLength (track g)"
  shows "\<exists>g'. update g inp dt = Some g'"
proof -
  let ?sp = "speed (player g) / maxSpeed (player g)"
  let ?v = "newSpeed (player g) inp dt ?sp (steer g inp dt ?sp)"
  let ?pos1 = "position g + (?v * dt * segmentLength) / 10"
  have d: "js_div (speed (player g)) (maxSpeed (player g)) = Some ?sp"
    using assms(1) by (simp add: js_div_def)
  obtain s1 where s1: "getSegment (track g) (position g) = Some s1"
    using getSegment_Some[OF assms(2)] by blast
  obtain s2 where s2: "getSegment (track g) (position g + segmentLength) = Some s2"
    using getSegment_Some[OF assms(2)] by blast
  obtain s3 where s3: "getSegment (track g)
       (?pos1 + cameraHeight (renderer g) * cameraDepth (renderer g)) = Some s3"
    using getSegment_Some[OF assms(2)] by blast
  obtain y1 where y1: "wrapAbove (trackLength (track g)) ?pos1 = Some y1"
    using wrapAbove_Some[OF assms(3)] by blast
  obtain y2 where y2: "wrapBelow (trackLength (track g)) y1 = Some y2"
    using wrapBelow_Some[OF assms(3)] by blast
  show ?thesis
    by (simp add: update_def d s1 s2 s3 y1 y2 Let_def)
qed

lemma update_player:
  assumes "update g inp dt = Some g'"
  shows "maxSpeed (player g) \<noteq> 0"
    and "speed (player g') = newSpeed (player g) inp dt (speed (player g) / maxSpeed (player g))
           (steer g inp dt (speed (player g) / maxSpeed (player g)))"
    and "- 2 \<le> px (player g') \<and> px (player g') \<le> 2"
    and "maxSpeed (player g') = maxSpeed (player g)"
    and "offRoadMaxSpeed (player g') = offRoadMaxSpeed (player g)"
  using assms
  by (auto simp: update_def js_div_def Let_def split: option.splits if_splits)


lemma offRoadFactor_range: "0 \<le> offRoadFactor x \<and> offRoadFactor x \<le> 1"
  by (simp add: offRoadFactor_def offRoadAmount_def)

lemma effectiveMaxSpeed_range:
  assumes "0 \<le> offRoadMaxSpeed p" and "offRoadMaxSpeed p \<le> maxSpeed p"
  shows "0 \<le> effectiveMaxSpeed p x" and "effectiveMaxSpeed p x \<le> maxSpeed p"
proof -
  let ?f = "offRoadFactor x"
  have f: "0 \<le> ?f" "?f \<le> 1" using offRoadFactor_range by simp_all
  have a: "0 \<le> (maxSpeed p - offRoadMaxSpeed p) * ?f"
    using assms f by simp
  have "(maxSpeed p - offRoadMaxSpeed p) * ?f \<le> (maxSpeed p - offRoadMaxSpeed p) * 1"
    using assms f by (intro mult_left_mono) simp_all
  then have b: "maxSpeed p - (maxSpeed p - offRoadMaxSpeed p) * ?f \<ge> offRoadMaxSpeed p"
    by simp
  show "0 \<le> effectiveMaxSpeed p x" using assms a b by (simp add: effectiveMaxSpeed_def)
  show "effectiveMaxSpeed p x \<le> maxSpeed p" using a by (simp add: effectiveMaxSpeed_def)
qed

lemma newSpeed_range:
  "0 \<le> newSpeed p inp dt sp x"
  "0 \<le> effectiveMaxSpeed p x \<Longrightarrow> newSpeed p inp dt sp x \<le> effectiveMaxSpeed p x"
  by (simp_all add: newSpeed_def Let_def)

lemma trackLength_buildFromData_pos: "0 < trackLength (buildFromData d)"
proof -
  have "trackLength (buildFromData d) = real (length (segments (buildFromData d))) * segmentLength"
    by (simp add: buildFromData_def Let_def length_foldl_placeSprite calculateYPositions_def
        length_calcY)
  moreover have "0 < length (segments (buildFromData d))"
    using buildFromData_nonempty[of d] by simp
  ultimately show ?thesis by (simp add: segmentLength_def)
qed

text \<open>
  C4, as the specification states it, fails.  Nothing relates the player's \<open>offRoadMaxSpeed\<close>
  to \<open>maxSpeed\<close>; when it is the larger, the effective maximum off the road is above
  \<open>maxSpeed\<close> and the clamp lets the speed pass it.  With \<open>maxSpeed = 100\<close>,
  \<open>offRoadMaxSpeed = 200\<close>, the player at \<open>x = 2\<close> and speed 100, throttle held and
  \<open>dt = 0.1\<close>, the speed after the tick is 106.
\<close>

theorem speed_exceeds_maxSpeed:
  "map_option (\<lambda>g'. speed (player g')) (update overdriveGame throttle (1 / 10)) = Some 106"
proof -
  have "maxSpeed (player overdriveGame) \<noteq> 0" "segments (track overdriveGame) \<noteq> []"
       "0 < trackLength (track overdriveGame)"
    using buildFromData_nonempty[of flatData] trackLength_buildFromData_pos[of flatData]
    by (simp_all add: overdriveGame_def)
  then obtain g' where g': "update overdriveGame throttle (1 / 10) = Some g'"
    using update_Some by blast
  have "speed (player g') = 106"
    unfolding update_player(2)[OF g']
    by (simp add: overdriveGame_def throttle_def steer_def newSpeed_def effectiveMaxSpeed_def
        isOffRoad_def offRoadFactor_def offRoadAmount_def Let_def)
  then show ?thesis using g' by simp
qed

text \<open>
  C4, amended.  On a track with segments and positive length, for a player with
  \<open>0 < maxSpeed\<close> and \<open>0 \<le> offRoadMaxSpeed \<le> maxSpeed\<close>, every combination of the four
  input flags and every \<open>dt\<close>, the tick completes, the speed after it lies in
  \<open>[0, maxSpeed]\<close>, and when the player is off the road after steering it is at most
  \<open>maxSpeed - (maxSpeed - offRoadMaxSpeed) * offRoadFactor\<close>.
\<close>

theorem speed_within_limits:
  assumes "segments (track g) \<noteq> []" and "0 < trackLength (track g)"
    and "0 < maxSpeed (player g)"
    and "0 \<le> offRoadMaxSpeed (player g)" and "offRoadMaxSpeed (player g) \<le> maxSpeed (player g)"
  shows "\<exists>g'. update g inp dt = Some g'
     \<and> 0 \<le> speed (player g') \<and> speed (player g') \<le> maxSpeed (player g)
     \<and> maxSpeed (player g') = maxSpeed (player g)
     \<and> (let x = steer g inp dt (speed (player g) / maxSpeed (player g))
        in isOffRoad x \<longrightarrow>
             speed (player g') \<le> maxSpeed (player g)
                - (maxSpeed (player g) - offRoadMaxSpeed (player g)) * offRoadFactor x)"
proof -
  obtain g' where g': "update g inp dt = Some g'"
    using update_Some[of g] assms by auto
  let ?x = "steer g inp dt (speed (player g) / maxSpeed (player g))"
  note e = effectiveMaxSpeed_range[OF assms(4,5), of ?x]
  note s = update_player(2)[OF g']
  have 1: "0 \<le> speed (player g')" unfolding s by (rule newSpeed_range(1))
  have 2: "speed (player g') \<le> effectiveMaxSpeed (player g) ?x"
    unfolding s by (rule newSpeed_range(2)[OF e(1)])
  have 3: "speed (player g') \<le> maxSpeed (player g)" using 2 e(2) by simp
  have 4: "isOffRoad ?x \<longrightarrow> speed (player g') \<le> maxSpeed (player g)
                - (maxSpeed (player g) - offRoadMaxSpeed (player g)) * offRoadFactor ?x"
    using 2 by (auto simp: effectiveMaxSpeed_def split: if_splits)
  show ?thesis using g' 1 3 4 update_player(4)[OF g'] by (simp add: Let_def)
qed

theorem speed_within_limits_witness:
  "segments (track sampleGame) \<noteq> [] \<and> 0 < trackLength (track sampleGame)
   \<and> 0 < maxSpeed (player sampleGame) \<and> 0 \<le> offRoadMaxSpeed (player sampleGame)
   \<and> offRoadMaxSpeed (player sampleGame) \<le> maxSpeed (player sampleGame)
   \<and> (\<exists>g'. update sampleGame throttle (1 / 10) = Some g'
         \<and> 0 \<le> speed (player g') \<and> speed (player g') \<le> 600)"
proof -
  have h: "segments (track sampleGame) \<noteq> []" "0 < trackLength (track sampleGame)"
    "0 < maxSpeed (player sampleGame)" "0 \<le> offRoadMaxSpeed (player sampleGame)"
    "offRoadMaxSpeed (player sampleGame) \<le> maxSpeed (player sampleGame)"
    using buildFromData_nonempty[of flatData] trackLength_buildFromData_pos[of flatData]
    by (simp_all add: sampleGame_def)
  have m: "maxSpeed (player sampleGame) = 600" by (simp add: sampleGame_def)
  show ?thesis
    using speed_within_limits [OF h, of throttle "1 / 10"] h unfolding m by blast
qed

subsection \<open>The tick when a number is not real\<close>


















section \<open>The cumulative elevation pass\<close>

lemma normalize_up:
  "j < k \<Longrightarrow> - 1074 < e - int j \<Longrightarrow> 2 ^ 52 \<le> \<bar>m\<bar> * 2 ^ j \<Longrightarrow> \<bar>m\<bar> * 2 ^ j < 2 ^ 53
   \<Longrightarrow> normalize k m e = (m * 2 ^ j, e - int j)"
proof (induction j arbitrary: k m e)
  case 0
  then obtain k' where k: "k = Suc k'" by (cases k) auto
  show ?case using 0 by (simp add: k)
next
  case (Suc j)
  then obtain k' where k: "k = Suc k'" by (cases k) auto
  have "\<bar>m\<bar> * 2 \<le> \<bar>m\<bar> * 2 ^ Suc j"
    by (intro mult_left_mono) (simp_all add: self_le_power)
  then have small: "\<bar>m\<bar> < 2 ^ 52" using Suc.prems(4) by simp
  have e: "e > - 1074" using Suc.prems(2) by simp
  have "normalize k' (m * 2) (e - 1) = (m * 2 * 2 ^ j, e - 1 - int j)"
    using Suc.prems by (intro Suc.IH) (simp_all add: k abs_mult mult.assoc)
  then show ?case using small e by (simp add: k mult.assoc)
qed

lemma double_of_scaled:
  assumes "2 ^ 52 \<le> \<bar>x\<bar> * 2 ^ j" and "\<bar>x\<bar> * 2 ^ j < 2 ^ 53" and "j < 1074"
  shows "double_of x = of_int (round_half_even (x * 2 ^ j)) / 2 ^ j"
proof -
  have "normalize 2200 x 0 = (x * 2 ^ j, 0 - int j)"
    using assms by (intro normalize_up) simp_all
  then show ?thesis
    by (cases "j = 0") (simp_all add: double_of_def pow2_def)
qed

lemma d01: "double_of (1 / 10) = 3602879701896397 / 36028797018963968"
  by (simp add: double_of_scaled[of _ 56] round_half_even_def)

lemma d02: "double_of (1 / 5) = 3602879701896397 / 18014398509481984"
  by (simp add: double_of_scaled[of _ 55] round_half_even_def)

lemma d01_fix: "double_of (3602879701896397 / 36028797018963968) = 3602879701896397 / 36028797018963968"
  by (simp add: double_of_scaled[of _ 56] round_half_even_def)

lemma d03: "double_of (3602879701896397 / 36028797018963968 + 3602879701896397 / 18014398509481984)
   = 1351079888211149 / 4503599627370496"
  by (simp add: double_of_scaled[of _ 54] round_half_even_def)

lemma d04: "double_of (1351079888211149 / 4503599627370496 - 3602879701896397 / 36028797018963968)
   = 7205759403792795 / 36028797018963968"
  by (simp add: double_of_scaled[of _ 55] round_half_even_def)


lemma calcY_nth:
  "i < length segs \<Longrightarrow>
   calcY add y segs ! i =
     (segs ! i)\<lparr>p1 := (p1 (segs ! i))\<lparr>world := (world (p1 (segs ! i)))
                   \<lparr>vy := foldl add y (map hill (take i segs))\<rparr>\<rparr>,
                p2 := (p2 (segs ! i))\<lparr>world := (world (p2 (segs ! i)))
                   \<lparr>vy := add (foldl add y (map hill (take i segs))) (hill (segs ! i))\<rparr>\<rparr>\<rparr>"
proof (induction segs arbitrary: y i)
  case Nil
  then show ?case by simp
next
  case (Cons s ss)
  show ?case
  proof (cases i)
    case 0
    then show ?thesis by simp
  next
    case (Suc j)
    then have "j < length ss" using Cons.prems by simp
    from Cons.IH[OF this] show ?thesis by (simp add: Suc)
  qed
qed

lemma calcY_fields:
  assumes "i < length segs"
  shows "hill (calcY add y segs ! i) = hill (segs ! i)"
    and "vy (world (p1 (calcY add y segs ! i))) = foldl add y (map hill (take i segs))"
    and "vy (world (p2 (calcY add y segs ! i)))
           = add (vy (world (p1 (calcY add y segs ! i)))) (hill (segs ! i))"
  by (simp_all add: calcY_nth[OF assms])

lemma calcY_chain:
  assumes "Suc i < length segs"
  shows "vy (world (p1 (calcY add y segs ! Suc i))) = vy (world (p2 (calcY add y segs ! i)))"
proof -
  have i: "i < length segs" using assms by simp
  have "take (Suc i) segs = take i segs @ [segs ! i]" using i by (simp add: take_Suc_conv_app_nth)
  then show ?thesis by (simp add: calcY_fields[OF assms] calcY_fields[OF i])
qed

lemma hills_decimal:
  "map hill (foldl addPiece [] decimalPieces)
     = [3602879701896397 / 36028797018963968, 3602879701896397 / 18014398509481984]"
  by (simp add: decimalPieces_def addPiece_def hill_addHill enterCount_def holdCount_def
      exitCount_def d01 d02)

text \<open>
  C8, as the specification states it, fails on the numbers the program computes with.
  For two one-segment hills of heights 0.1 and 0.2, the second segment gets
  \<open>p1.world.y = 0.1\<close> and \<open>p2.world.y = 0.1 + 0.2\<close>, rounded up to
  0.30000000000000004; the difference \<open>p2.world.y - p1.world.y\<close> is then
  0.20000000000000004, one unit in the last place above the segment's \<open>hill\<close>.
\<close>

theorem elevation_difference_inexact:
  "dsub (vy (world (p2 (decimalSegments ! 1)))) (vy (world (p1 (decimalSegments ! 1))))
     = 7205759403792795 / 36028797018963968
   \<and> hill (decimalSegments ! 1) = 7205759403792794 / 36028797018963968"
proof -
  let ?segs = "foldl addPiece [] decimalPieces"
  have l: "length ?segs = 2" using arg_cong[OF hills_decimal, of length] by simp
  then have i: "1 < length ?segs" by simp
  have t: "map hill (take (Suc 0) ?segs) = [3602879701896397 / 36028797018963968]"
    using arg_cong[OF hills_decimal, of "take (Suc 0)"] by (simp add: take_map)
  have h: "hill (?segs ! 1) = 3602879701896397 / 18014398509481984"
    using arg_cong[OF hills_decimal, of "\<lambda>xs. xs ! 1"] i by simp
  have p1v: "vy (world (p1 (decimalSegments ! 1))) = 3602879701896397 / 36028797018963968"
    unfolding decimalSegments_def calculateYPositions_double_def calcY_fields(2)[OF i]
    by (simp add: t dadd_def d01_fix)
  have "vy (world (p2 (decimalSegments ! 1)))
      = dadd (vy (world (p1 (decimalSegments ! 1)))) (hill (?segs ! 1))"
    unfolding decimalSegments_def calculateYPositions_double_def by (rule calcY_fields(3)[OF i])
  also have "\<dots> = double_of (3602879701896397 / 36028797018963968
                               + 3602879701896397 / 18014398509481984)"
    unfolding p1v h dadd_def ..
  finally have p2v: "vy (world (p2 (decimalSegments ! 1))) = 1351079888211149 / 4503599627370496"
    unfolding d03 .
  have hv: "hill (decimalSegments ! 1) = 3602879701896397 / 18014398509481984"
    unfolding decimalSegments_def calculateYPositions_double_def calcY_fields(1)[OF i]
    by (rule h)
  have "dsub (vy (world (p2 (decimalSegments ! 1)))) (vy (world (p1 (decimalSegments ! 1))))
      = 7205759403792795 / 36028797018963968"
    unfolding p1v p2v dsub_def by (rule d04)
  moreover have "hill (decimalSegments ! 1) = 7205759403792794 / 36028797018963968"
    unfolding hv by simp
  ultimately show ?thesis by simp
qed

text \<open>
  C8, amended.  After the elevation pass on doubles, \<open>p1.world.y\<close> of segment 0 is 0,
  \<open>p1.world.y\<close> of every later segment is \<open>p2.world.y\<close> of the segment before it, and
  \<open>p2.world.y\<close> is the rounded sum of \<open>p1.world.y\<close> and the segment's \<open>hill\<close>.  With
  exact addition, \<open>p2.world.y - p1.world.y\<close> is the segment's \<open>hill\<close>; on doubles it is so
  only up to rounding.
\<close>

theorem elevation_pass:
  assumes "i < length segs"
  shows "vy (world (p1 (calculateYPositions_double segs ! i)))
           = (if i = 0 then 0 else vy (world (p2 (calculateYPositions_double segs ! (i - 1)))))
     \<and> vy (world (p2 (calculateYPositions_double segs ! i)))
           = dadd (vy (world (p1 (calculateYPositions_double segs ! i))))
                  (hill (calculateYPositions_double segs ! i))
     \<and> vy (world (p2 (calculateYPositions segs ! i))) - vy (world (p1 (calculateYPositions segs ! i)))
           = hill (calculateYPositions segs ! i)"
proof -
  have a: "vy (world (p1 (calculateYPositions_double segs ! i)))
           = (if i = 0 then 0 else vy (world (p2 (calculateYPositions_double segs ! (i - 1)))))"
  proof (cases i)
    case 0
    then show ?thesis using assms by (simp add: calculateYPositions_double_def calcY_fields(2))
  next
    case (Suc j)
    then show ?thesis using assms calcY_chain[of j segs dadd 0]
      by (simp add: calculateYPositions_double_def)
  qed
  have b: "vy (world (p2 (calculateYPositions_double segs ! i)))
           = dadd (vy (world (p1 (calculateYPositions_double segs ! i))))
                  (hill (calculateYPositions_double segs ! i))"
    unfolding calculateYPositions_double_def
    by (simp add: calcY_fields(3)[OF assms] calcY_fields(1)[OF assms])
  have c: "vy (world (p2 (calculateYPositions segs ! i))) - vy (world (p1 (calculateYPositions segs ! i)))
           = hill (calculateYPositions segs ! i)"
    unfolding calculateYPositions_def
    by (simp add: calcY_fields(3)[OF assms] calcY_fields(1)[OF assms])
  show ?thesis using a b c by simp
qed

theorem elevation_pass_witness:
  "1 < length (foldl addPiece [] decimalPieces)
   \<and> vy (world (p2 (calculateYPositions (foldl addPiece [] decimalPieces) ! 1)))
       - vy (world (p1 (calculateYPositions (foldl addPiece [] decimalPieces) ! 1)))
       = hill (calculateYPositions (foldl addPiece [] decimalPieces) ! 1)
   \<and> vy (world (p1 (calculateYPositions_double (foldl addPiece [] decimalPieces) ! 1)))
       = vy (world (p2 (calculateYPositions_double (foldl addPiece [] decimalPieces) ! 0)))"
proof -
  have "length (foldl addPiece [] decimalPieces) = 2"
    using arg_cong[OF hills_decimal, of length] by simp
  then have i: "1 < length (foldl addPiece [] decimalPieces)" by simp
  show ?thesis using elevation_pass [OF i] i by simp
qed


end
